theory Spec2Isabelle
  imports Main "HOL-Library.Char_ord"
begin

section \<open>Data model of the Turing machine engine\<close>

text \<open>
  The engine is the Python class \<open>TuringMachine\<close> of \<open>src/turing_machine.py\<close>.
  States and tape symbols are Python strings. The tape is a Python list, the head
  position and the step counter are unbounded Python integers.
\<close>

type_synonym state = string
type_synonym symbol = string

text \<open>
  The exceptions the engine can raise: the two \<open>ValueError\<close>s written in the source
  (blank symbol outside the tape alphabet, with the offending symbol; a direction other
  than R, L, S, with the offending direction) and the \<open>IndexError\<close> of a list access
  out of range.
\<close>

datatype error =
    ValueError_blank_symbol symbol
  | ValueError_direction string
  | IndexError

text \<open>
  The message component of a step result. The source builds Spanish strings; each
  constructor stands for one of them:
  \<^item> \<open>CADENA_ACEPTADA\<close>: "CADENA ACEPTADA";
  \<^item> \<open>CADENA_RECHAZADA\<close>: "CADENA RECHAZADA";
  \<^item> \<open>RECHAZADA_no_transicion\<close>: "RECHAZADA: No hay transicion definida";
  \<^item> \<open>RECHAZADA_maximo_pasos\<close>: "RECHAZADA: Maximo de pasos alcanzado";
  \<^item> \<open>Paso q q' r w d\<close>: the f-string "Estado: q -> q', Leyo: 'r', Escribio: 'w',
    Movimiento: d".
\<close>

datatype message =
    CADENA_ACEPTADA
  | CADENA_RECHAZADA
  | RECHAZADA_no_transicion
  | RECHAZADA_maximo_pasos
  | Paso state state symbol symbol string

text \<open>The tuple \<open>(continuar, estado, cinta, posicion, mensaje)\<close> returned by \<open>step\<close>.\<close>

type_synonym result = "bool \<times> state \<times> symbol list \<times> int \<times> message"

text \<open>One entry of \<open>history\<close>: the dictionary built by \<open>_save_configuration\<close>.\<close>

record configuration =
  h_step :: int
  h_state :: state
  h_tape :: "symbol list"
  h_head :: int
  h_symbol :: symbol

text \<open>
  The attributes of a \<open>TuringMachine\<close> object. A Python set whose elements are only
  tested for membership is a HOL set. \<open>reject_states\<close> is also read through
  \<open>list(self.reject_states)[0]\<close>, so it is kept as the list \<open>list(self.reject_states)\<close>:
  the elements of the set in the order in which Python iterates them. Python does not
  fix that order; the theorems about \<open>step\<close> and \<open>run\<close> below hold for every record and
  therefore for every order.
\<close>

record turing_machine =
  states :: "state set"
  alphabet :: "symbol set"
  tape_alphabet :: "symbol set"
  transitions :: "(state \<times> symbol) \<rightharpoonup> (state \<times> symbol \<times> string)"
  initial_state :: state
  accept_states :: "state set"
  reject_states :: "state list"
  blank_symbol :: symbol
  tape :: "symbol list"
  head_position :: int
  current_state :: state
  history :: "configuration list"
  step_count :: int

text \<open>The dictionary returned by \<open>get_status\<close>.\<close>

record status =
  s_state :: state
  s_tape :: "symbol list"
  s_head :: int
  s_step :: int
  is_accepting :: bool
  is_rejecting :: bool
  is_running :: bool

section \<open>Python list access\<close>

text \<open>
  \<open>xs[i]\<close> in Python: a negative index counts from the end, and an index outside
  \<open>-len(xs) .. len(xs) - 1\<close> raises \<open>IndexError\<close>.
\<close>

definition py_index :: "'a list \<Rightarrow> int \<Rightarrow> error + nat" where
  "py_index xs i =
     (let n = int (length xs)
      in if 0 \<le> i \<and> i < n then Inr (nat i)
         else if - n \<le> i \<and> i < 0 then Inr (nat (n + i))
         else Inl IndexError)"

definition py_get :: "'a list \<Rightarrow> int \<Rightarrow> error + 'a" where
  "py_get xs i = (case py_index xs i of Inl e \<Rightarrow> Inl e | Inr k \<Rightarrow> Inr (xs ! k))"

definition py_set :: "'a list \<Rightarrow> int \<Rightarrow> 'a \<Rightarrow> error + 'a list" where
  "py_set xs i v = (case py_index xs i of Inl e \<Rightarrow> Inl e | Inr k \<Rightarrow> Inr (xs[k := v]))"

section \<open>The engine\<close>

subsection \<open>Construction\<close>

text \<open>
  \<open>__init__\<close>: the arguments are the iterables of the machine description (lists in
  \<open>transitions.py\<close>); the only check is that the blank symbol is in the tape alphabet.
  \<open>set(reject_states)\<close> is listed without duplicates, in the order of the argument. With
  a single reject state, as in every sample definition, that is the only order there is;
  with several, Python may iterate the set in another order.
\<close>

definition TuringMachine ::
  "state list \<Rightarrow> symbol list \<Rightarrow> symbol list \<Rightarrow>
   ((state \<times> symbol) \<rightharpoonup> (state \<times> symbol \<times> string)) \<Rightarrow>
   state \<Rightarrow> state list \<Rightarrow> state list \<Rightarrow> symbol \<Rightarrow> error + turing_machine" where
  "TuringMachine sts alph talph delta q0 acc rej blank =
     (if blank \<notin> set talph then Inl (ValueError_blank_symbol blank)
      else Inr \<lparr> states = set sts, alphabet = set alph, tape_alphabet = set talph,
                 transitions = delta, initial_state = q0, accept_states = set acc,
                 reject_states = remdups rej, blank_symbol = blank,
                 tape = [], head_position = 0, current_state = q0,
                 history = [], step_count = 0 \<rparr>)"

subsection \<open>Saving a configuration\<close>

text \<open>
  \<open>_save_configuration\<close> appends the current configuration to the history. The symbol
  entry is \<open>tape_copy[head]\<close> when \<open>head < len(tape_copy)\<close> (a Python list access, so
  a negative head reads from the end or raises) and the blank symbol otherwise.
\<close>

definition save_configuration :: "turing_machine \<Rightarrow> error + turing_machine" where
  "save_configuration m =
     (let tape_copy = tape m
      in case (if head_position m < int (length tape_copy)
               then py_get tape_copy (head_position m)
               else Inr (blank_symbol m)) of
           Inl e \<Rightarrow> Inl e
         | Inr s \<Rightarrow>
             Inr (m\<lparr>history := history m @
                    [\<lparr> h_step = step_count m, h_state = current_state m,
                       h_tape = tape_copy, h_head = head_position m,
                       h_symbol = s \<rparr>]\<rparr>))"

subsection \<open>Reset\<close>

text \<open>
  \<open>list(input_string)\<close>: the characters of the input, each a one-character string.
  (Characters are those of \<open>string\<close>; the sample alphabets are ASCII.)
\<close>

definition list_of_string :: "string \<Rightarrow> symbol list" where
  "list_of_string input_string = map (\<lambda>c. [c]) input_string"

definition reset :: "turing_machine \<Rightarrow> string \<Rightarrow> error + turing_machine" where
  "reset m input_string =
     save_configuration
       (m\<lparr>tape := replicate 5 (blank_symbol m) @ list_of_string input_string
                  @ replicate 5 (blank_symbol m),
          head_position := 5,
          current_state := initial_state m,
          history := [],
          step_count := 0\<rparr>)"

subsection \<open>Tape bounds\<close>

text \<open>
  The loop \<open>while self.head_position >= len(self.tape): self.tape.append(blank)\<close>
  of \<open>_ensure_tape_bounds\<close>.
\<close>

function append_blanks :: "symbol \<Rightarrow> int \<Rightarrow> symbol list \<Rightarrow> symbol list" where
  "append_blanks b h t = (if h \<ge> int (length t) then append_blanks b h (t @ [b]) else t)"
  by pat_completeness auto
termination
  by (relation "measure (\<lambda>(b, h, t). nat (h + 1 - int (length t)))") auto

declare append_blanks.simps [simp del]

definition ensure_tape_bounds :: "turing_machine \<Rightarrow> turing_machine" where
  "ensure_tape_bounds m =
     (let m1 = (if head_position m < 0
                then m\<lparr>tape := replicate 5 (blank_symbol m) @ tape m,
                       head_position := head_position m + 5\<rparr>
                else m)
      in m1\<lparr>tape := append_blanks (blank_symbol m1) (head_position m1) (tape m1)\<rparr>)"

subsection \<open>One step\<close>

text \<open>
  The state chosen when a run is rejected without a transition into a reject state:
  \<open>list(self.reject_states)[0] if self.reject_states else 'qr'\<close>.
\<close>

definition reject_choice :: "turing_machine \<Rightarrow> state" where
  "reject_choice m = (case reject_states m of [] \<Rightarrow> ''qr'' | q # _ \<Rightarrow> q)"

text \<open>
  \<open>step\<close> returns the result tuple together with the machine it leaves. The branches
  follow the source in its order: the two terminal tests, the tape bounds, the read, the
  lookup, and for a transition the write, the direction test (which raises after the
  write), the move, the new state and step count, the history entry and the final tests.
\<close>

definition step :: "turing_machine \<Rightarrow> error + (result \<times> turing_machine)" where
  "step m =
     (if current_state m \<in> accept_states m then
        Inr ((False, current_state m, tape m, head_position m, CADENA_ACEPTADA), m)
      else if current_state m \<in> set (reject_states m) then
        Inr ((False, current_state m, tape m, head_position m, CADENA_RECHAZADA), m)
      else
        let m1 = ensure_tape_bounds m
        in case py_get (tape m1) (head_position m1) of
             Inl e \<Rightarrow> Inl e
           | Inr current_symbol \<Rightarrow>
               (case transitions m1 (current_state m1, current_symbol) of
                  None \<Rightarrow>
                    (case save_configuration (m1\<lparr>current_state := reject_choice m1\<rparr>) of
                       Inl e \<Rightarrow> Inl e
                     | Inr m2 \<Rightarrow>
                         Inr ((False, current_state m2, tape m2, head_position m2,
                               RECHAZADA_no_transicion), m2))
                | Some (new_state, write_symbol, direction) \<Rightarrow>
                    (case py_set (tape m1) (head_position m1) write_symbol of
                       Inl e \<Rightarrow> Inl e
                     | Inr t \<Rightarrow>
                         if direction \<noteq> ''R'' \<and> direction \<noteq> ''L'' \<and> direction \<noteq> ''S''
                         then Inl (ValueError_direction direction)
                         else
                           (case save_configuration
                                   (m1\<lparr>tape := t,
                                       head_position :=
                                         (if direction = ''R'' then head_position m1 + 1
                                          else if direction = ''L'' then head_position m1 - 1
                                          else head_position m1),
                                       current_state := new_state,
                                       step_count := step_count m1 + 1\<rparr>) of
                              Inl e \<Rightarrow> Inl e
                            | Inr m2 \<Rightarrow>
                                if current_state m2 \<in> accept_states m2 then
                                  Inr ((False, current_state m2, tape m2, head_position m2,
                                        CADENA_ACEPTADA), m2)
                                else if current_state m2 \<in> set (reject_states m2) then
                                  Inr ((False, current_state m2, tape m2, head_position m2,
                                        CADENA_RECHAZADA), m2)
                                else
                                  Inr ((True, current_state m2, tape m2, head_position m2,
                                        Paso (current_state m1) new_state current_symbol
                                             write_symbol direction), m2)))))"

subsection \<open>Run\<close>

text \<open>
  The loop \<open>for _ in range(max_steps)\<close> of \<open>run\<close>, with the number of iterations left
  as the recursion argument. The loop ends at the first result that does not continue,
  and after one step in step-by-step mode. The sleep between steps has no effect on
  the machine and is left out.
\<close>

fun run_loop ::
  "nat \<Rightarrow> bool \<Rightarrow> turing_machine \<Rightarrow> result list \<Rightarrow> error + (result list \<times> turing_machine)" where
  "run_loop 0 step_by_step m results = Inr (results, m)"
| "run_loop (Suc n) step_by_step m results =
     (case step m of
        Inl e \<Rightarrow> Inl e
      | Inr (r, m') \<Rightarrow>
          if \<not> fst r then Inr (results @ [r], m')
          else if step_by_step then Inr (results @ [r], m')
          else run_loop n step_by_step m' (results @ [r]))"

definition run ::
  "turing_machine \<Rightarrow> string \<Rightarrow> bool \<Rightarrow> int \<Rightarrow> error + (result list \<times> turing_machine)" where
  "run m input_string step_by_step max_steps =
     (case reset m input_string of
        Inl e \<Rightarrow> Inl e
      | Inr m0 \<Rightarrow>
          (case run_loop (nat max_steps) step_by_step m0 [] of
             Inl e \<Rightarrow> Inl e
           | Inr (results, m1) \<Rightarrow>
               if step_count m1 \<ge> max_steps then
                 let m2 = m1\<lparr>current_state := reject_choice m1\<rparr>
                 in Inr (results @ [(False, current_state m2, tape m2, head_position m2,
                                     RECHAZADA_maximo_pasos)], m2)
               else Inr (results, m1)))"

subsection \<open>Status\<close>

definition get_status :: "turing_machine \<Rightarrow> status \<times> turing_machine" where
  "get_status m =
     (let m1 = ensure_tape_bounds m
      in (\<lparr> s_state = current_state m1, s_tape = tape m1, s_head = head_position m1,
            s_step = step_count m1,
            is_accepting = (current_state m1 \<in> accept_states m1),
            is_rejecting = (current_state m1 \<in> set (reject_states m1)),
            is_running = (current_state m1 \<notin> accept_states m1 \<and>
                          current_state m1 \<notin> set (reject_states m1)) \<rparr>, m1))"

section \<open>The sample definition for \<open>(a|b)*abb\<close>\<close>

text \<open>\<open>REGEX_1_TRANSITIONS\<close> and \<open>REGEX_1_CONFIG\<close> of \<open>src/transitions.py\<close>.\<close>

definition REGEX_1_TRANSITIONS :: "(state \<times> symbol) \<rightharpoonup> (state \<times> symbol \<times> string)" where
  "REGEX_1_TRANSITIONS = map_of
     [((''q0'', ''a''), (''q1'', ''a'', ''R'')),
      ((''q0'', ''b''), (''q0'', ''b'', ''R'')),
      ((''q0'', ''_''), (''qr'', ''_'', ''S'')),
      ((''q1'', ''a''), (''q1'', ''a'', ''R'')),
      ((''q1'', ''b''), (''q2'', ''b'', ''R'')),
      ((''q1'', ''_''), (''qr'', ''_'', ''S'')),
      ((''q2'', ''a''), (''q1'', ''a'', ''R'')),
      ((''q2'', ''b''), (''q3'', ''b'', ''R'')),
      ((''q2'', ''_''), (''qr'', ''_'', ''S'')),
      ((''q3'', ''a''), (''q1'', ''a'', ''R'')),
      ((''q3'', ''b''), (''q0'', ''b'', ''R'')),
      ((''q3'', ''_''), (''qa'', ''_'', ''S''))]"

text \<open>
  The engine built from \<open>REGEX_1_CONFIG\<close> the way every caller in the repository builds
  it, with the default blank symbol.
\<close>

definition REGEX_1_machine :: "error + turing_machine" where
  "REGEX_1_machine =
     TuringMachine [''q0'', ''q1'', ''q2'', ''q3'', ''qa'', ''qr''] [''a'', ''b'']
       [''a'', ''b'', ''_''] REGEX_1_TRANSITIONS ''q0'' [''qa''] [''qr''] ''_''"

section \<open>Repeated calls and the machines used as examples\<close>

text \<open>
  \<open>step_again n m\<close> is what the call number \<open>n + 1\<close> of \<open>step\<close> returns when \<open>step\<close> is
  called over and over, starting at machine \<open>m\<close>.
\<close>

fun step_again :: "nat \<Rightarrow> turing_machine \<Rightarrow> error + (result \<times> turing_machine)" where
  "step_again 0 m = step m"
| "step_again (Suc n) m = (case step m of Inl e \<Rightarrow> Inl e | Inr (r, m') \<Rightarrow> step_again n m')"

text \<open>The engine for \<open>(a|b)*abb\<close> after \<open>reset(s)\<close>.\<close>

definition REGEX_1_after_reset :: "string \<Rightarrow> turing_machine" where
  "REGEX_1_after_reset s = projr (reset (projr REGEX_1_machine) s)"

text \<open>
  A machine description without reject states and without transitions, and the engine
  built from it after \<open>reset(s)\<close>.
\<close>

definition no_reject_machine :: "error + turing_machine" where
  "no_reject_machine =
     TuringMachine [''q0'', ''qa''] [''a''] [''a'', ''_''] Map.empty ''q0'' [''qa''] [] ''_''"

definition no_reject_after_reset :: "string \<Rightarrow> turing_machine" where
  "no_reject_after_reset s = projr (reset (projr no_reject_machine) s)"

text \<open>
  A looping machine description: on the blank symbol the state \<open>q0\<close> writes the blank,
  moves right and stays in \<open>q0\<close>, so no accept or reject state is ever entered. Also the
  engine built from it after \<open>reset(s)\<close>.
\<close>

definition looping_machine :: "error + turing_machine" where
  "looping_machine =
     TuringMachine [''q0'', ''qa'', ''qr''] [''a''] [''a'', ''_'']
       (map_of [((''q0'', ''_''), (''q0'', ''_'', ''R''))]) ''q0'' [''qa''] [''qr''] ''_''"

definition looping_after_reset :: "string \<Rightarrow> turing_machine" where
  "looping_after_reset s = projr (reset (projr looping_machine) s)"

text \<open>
  Two further machine descriptions: one whose initial state is an accept state, and one
  whose only transition carries a direction that is none of R, L, S.
\<close>

definition accepting_start_machine :: "error + turing_machine" where
  "accepting_start_machine =
     TuringMachine [''qa'', ''qr''] [''a''] [''a'', ''_''] Map.empty ''qa'' [''qa''] [''qr''] ''_''"

definition bad_direction_machine :: "error + turing_machine" where
  "bad_direction_machine =
     TuringMachine [''q0'', ''qa'', ''qr''] [''a''] [''a'', ''_'']
       (map_of [((''q0'', ''_''), (''q0'', ''_'', ''X''))]) ''q0'' [''qa''] [''qr''] ''_''"

section \<open>Reachable machines\<close>

text \<open>
  The machines a caller can get hold of: a machine as constructed, and the machine left
  by \<open>reset\<close>, \<open>step\<close>, \<open>run\<close> or \<open>get_status\<close> called on such a machine. A \<open>step\<close>
  that raises for an invalid direction has already written the tape cell; the object it
  leaves behind is reachable too (rule \<open>after_invalid_direction\<close>). No other exception
  occurs on a reachable machine (lemma \<open>reachable_step_no_IndexError\<close> below), and a
  \<open>run\<close> that raises leaves the machine of its \<open>reset\<close> and its calls of \<open>step\<close>.
\<close>

inductive reachable :: "turing_machine \<Rightarrow> bool" where
  constructed:
    "TuringMachine sts alph talph delta q0 acc rej blank = Inr m \<Longrightarrow> reachable m"
| after_reset: "reachable m \<Longrightarrow> reset m s = Inr m' \<Longrightarrow> reachable m'"
| after_step: "reachable m \<Longrightarrow> step m = Inr (r, m') \<Longrightarrow> reachable m'"
| after_run: "reachable m \<Longrightarrow> run m s step_by_step max_steps = Inr (rs, m') \<Longrightarrow> reachable m'"
| after_get_status: "reachable m \<Longrightarrow> get_status m = (st, m') \<Longrightarrow> reachable m'"
| after_invalid_direction:
    "reachable m \<Longrightarrow> step m = Inl (ValueError_direction d) \<Longrightarrow>
     py_get (tape (ensure_tape_bounds m)) (head_position (ensure_tape_bounds m)) = Inr s \<Longrightarrow>
     transitions m (current_state m, s) = Some (q, w, d) \<Longrightarrow>
     py_set (tape (ensure_tape_bounds m)) (head_position (ensure_tape_bounds m)) w = Inr t \<Longrightarrow>
     reachable ((ensure_tape_bounds m)\<lparr>tape := t\<rparr>)"

text \<open>The head is at most one cell outside the tape.\<close>

definition head_near_tape :: "turing_machine \<Rightarrow> bool" where
  "head_near_tape m = (- 1 \<le> head_position m \<and> head_position m \<le> int (length (tape m)))"

section \<open>Input validation\<close>

text \<open>
  \<open>validate_input_string\<close> of \<open>src/utils.py\<close>. The characters are of any linearly ordered
  type (Python orders characters by code point); the alphabet is the set \<open>set(alphabet)\<close>.
  The second component of the result is the empty string (\<open>Sin_mensaje\<close>) or the message
  "Simbolos invalidos: " followed by the sorted list of the invalid symbols
  (\<open>Simbolos_invalidos\<close> with that list).
\<close>

datatype 'a validation_message = Sin_mensaje | Simbolos_invalidos "'a list"

definition validate_input_string ::
  "'a::linorder list \<Rightarrow> 'a set \<Rightarrow> bool \<times> 'a validation_message" where
  "validate_input_string input_string alphabet_set =
     (if input_string = [] then (True, Sin_mensaje)
      else
        let invalid_symbols = set input_string - alphabet_set
        in if invalid_symbols \<noteq> {}
           then (False, Simbolos_invalidos (sorted_list_of_set invalid_symbols))
           else (True, Sin_mensaje))"

section \<open>Auxiliary facts\<close>

lemma append_blanks_eq: "append_blanks b h t = t @ replicate (nat (h + 1 - int (length t))) b"
proof (induction b h t rule: append_blanks.induct)
  case (1 b h t)
  show ?case
  proof (cases "h \<ge> int (length t)")
    case True
    then have "nat (h + 1 - int (length t)) = Suc (nat (h + 1 - int (length (t @ [b]))))"
      by simp
    with True 1 show ?thesis
      by (subst append_blanks.simps) (simp add: replicate_append_same)
  next
    case False
    then show ?thesis by (subst append_blanks.simps) simp
  qed
qed

lemma length_list_of_string: "length (list_of_string s) = length s"
  by (simp add: list_of_string_def)

lemma py_get_in_range: "0 \<le> i \<Longrightarrow> i < int (length xs) \<Longrightarrow> py_get xs i = Inr (xs ! nat i)"
  by (simp add: py_get_def py_index_def)

lemma py_set_in_range: "0 \<le> i \<Longrightarrow> i < int (length xs) \<Longrightarrow> py_set xs i v = Inr (xs[nat i := v])"
  by (simp add: py_set_def py_index_def)

lemma py_set_length: "py_set xs i v = Inr t \<Longrightarrow> length t = length xs"
  by (auto simp: py_set_def split: sum.splits)

lemma ensure_tape_bounds_in_range:
  "0 \<le> head_position m \<Longrightarrow> head_position m < int (length (tape m)) \<Longrightarrow> ensure_tape_bounds m = m"
  by (simp add: ensure_tape_bounds_def append_blanks_eq)

lemma ensure_tape_bounds_frame:
  "states (ensure_tape_bounds m) = states m"
  "alphabet (ensure_tape_bounds m) = alphabet m"
  "tape_alphabet (ensure_tape_bounds m) = tape_alphabet m"
  "transitions (ensure_tape_bounds m) = transitions m"
  "initial_state (ensure_tape_bounds m) = initial_state m"
  "accept_states (ensure_tape_bounds m) = accept_states m"
  "reject_states (ensure_tape_bounds m) = reject_states m"
  "blank_symbol (ensure_tape_bounds m) = blank_symbol m"
  "current_state (ensure_tape_bounds m) = current_state m"
  "history (ensure_tape_bounds m) = history m"
  "step_count (ensure_tape_bounds m) = step_count m"
  by (simp_all add: ensure_tape_bounds_def Let_def)

lemma save_configuration_Inr:
  "save_configuration m = Inr m' \<Longrightarrow> \<exists>c. m' = m\<lparr>history := history m @ [c]\<rparr>"
  by (auto simp: save_configuration_def Let_def split: sum.splits if_splits)

lemma py_get_Inr_less: "py_get xs i = Inr s \<Longrightarrow> i < int (length xs)"
  by (simp add: py_get_def py_index_def Let_def split: if_splits)

lemma save_configuration_read:
  assumes "py_get (tape m) (head_position m) = Inr s"
  shows "save_configuration m =
     Inr (m\<lparr>history := history m @
            [\<lparr> h_step = step_count m, h_state = current_state m, h_tape = tape m,
               h_head = head_position m, h_symbol = s \<rparr>]\<rparr>)"
proof -
  have "head_position m < int (length (tape m))"
    using assms by (rule py_get_Inr_less)
  then show ?thesis
    by (simp add: save_configuration_def Let_def assms)
qed

lemma reject_choice_member:
  "reject_states m \<noteq> [] \<Longrightarrow> reject_choice m \<in> set (reject_states m)"
  by (cases "reject_states m") (simp_all add: reject_choice_def)

lemma step_terminal:
  "current_state m \<in> accept_states m \<or> current_state m \<in> set (reject_states m) \<Longrightarrow>
   step m = Inr ((False, current_state m, tape m, head_position m,
                  if current_state m \<in> accept_states m then CADENA_ACEPTADA
                  else CADENA_RECHAZADA), m)"
  by (auto simp: step_def)

lemma step_result_fields:
  assumes "step m = Inr (r, m')"
  shows "fst (snd r) = current_state m' \<and> fst (snd (snd r)) = tape m'
       \<and> fst (snd (snd (snd r))) = head_position m'
       \<and> accept_states m' = accept_states m \<and> reject_states m' = reject_states m"
  using assms
  by (auto simp: step_def Let_def ensure_tape_bounds_frame
      dest!: save_configuration_Inr split: if_splits sum.splits option.splits prod.splits)

lemma step_halt_state:
  assumes "step m = Inr (r, m')" and "\<not> fst r" and "reject_states m \<noteq> []"
  shows "current_state m' \<in> accept_states m' \<or> current_state m' \<in> set (reject_states m')"
  using assms
  by (auto simp: step_def Let_def ensure_tape_bounds_frame reject_choice_def
      dest!: save_configuration_Inr split: if_splits sum.splits option.splits prod.splits list.splits)

lemma step_halt_message:
  assumes "step m = Inr (r, m')" and "\<not> fst r"
    and "snd (snd (snd (snd r))) \<noteq> RECHAZADA_no_transicion"
  shows "snd (snd (snd (snd r))) =
           (if current_state m' \<in> accept_states m' then CADENA_ACEPTADA else CADENA_RECHAZADA)
         \<and> (current_state m' \<in> accept_states m' \<or> current_state m' \<in> set (reject_states m'))"
  using assms
  by (auto simp: step_def Let_def ensure_tape_bounds_frame
      dest!: save_configuration_Inr split: if_splits sum.splits option.splits prod.splits)

lemma step_again_terminal:
  "current_state m \<in> accept_states m \<or> current_state m \<in> set (reject_states m) \<Longrightarrow>
   step_again n m = Inr ((False, current_state m, tape m, head_position m,
                  if current_state m \<in> accept_states m then CADENA_ACEPTADA
                  else CADENA_RECHAZADA), m)"
  by (induction n) (simp_all add: step_terminal)

lemma reset_eq:
  "reset m s =
     Inr (m\<lparr>tape := replicate 5 (blank_symbol m) @ list_of_string s @ replicate 5 (blank_symbol m),
            head_position := 5,
            current_state := initial_state m,
            history := [\<lparr> h_step = 0, h_state = initial_state m,
                          h_tape = replicate 5 (blank_symbol m) @ list_of_string s
                                   @ replicate 5 (blank_symbol m),
                          h_head = 5,
                          h_symbol = (case s of [] \<Rightarrow> blank_symbol m | c # _ \<Rightarrow> [c]) \<rparr>],
            step_count := 0\<rparr>)"
proof -
  let ?t = "replicate 5 (blank_symbol m) @ list_of_string s @ replicate 5 (blank_symbol m)"
  have len: "length ?t = 10 + length s" by (simp add: list_of_string_def)
  have sym: "?t ! 5 = (case s of [] \<Rightarrow> blank_symbol m | c # _ \<Rightarrow> [c])"
    by (cases s) (simp_all add: list_of_string_def nth_append)
  have get: "py_get ?t 5 = Inr (?t ! 5)"
    using py_get_in_range [of 5 ?t] len by simp
  show ?thesis
    unfolding reset_def save_configuration_def using get sym len by (simp add: Let_def)
qed

lemmas eval_defs =
  step_def ensure_tape_bounds_def append_blanks_eq py_get_def py_set_def py_index_def
  save_configuration_def reject_choice_def Let_def list_of_string_def

lemma REGEX_1_after_reset_c:
  "REGEX_1_after_reset ''c'' =
     \<lparr> states = {''q0'', ''q1'', ''q2'', ''q3'', ''qa'', ''qr''}, alphabet = {''a'', ''b''},
       tape_alphabet = {''a'', ''b'', ''_''}, transitions = REGEX_1_TRANSITIONS,
       initial_state = ''q0'', accept_states = {''qa''}, reject_states = [''qr''],
       blank_symbol = ''_'',
       tape = [''_'', ''_'', ''_'', ''_'', ''_'', ''c'', ''_'', ''_'', ''_'', ''_'', ''_''],
       head_position = 5, current_state = ''q0'',
       history = [\<lparr> h_step = 0, h_state = ''q0'',
                    h_tape = [''_'', ''_'', ''_'', ''_'', ''_'', ''c'', ''_'', ''_'', ''_'', ''_'', ''_''],
                    h_head = 5, h_symbol = ''c'' \<rparr>],
       step_count = 0 \<rparr>"
  by (simp add: REGEX_1_after_reset_def REGEX_1_machine_def TuringMachine_def reset_eq
      list_of_string_def numeral_eq_Suc)

lemma step_REGEX_1_c:
  "step (REGEX_1_after_reset ''c'') =
     Inr ((False, ''qr'', [''_'', ''_'', ''_'', ''_'', ''_'', ''c'', ''_'', ''_'', ''_'', ''_'', ''_''],
           5, RECHAZADA_no_transicion),
          (REGEX_1_after_reset ''c'')
            \<lparr>current_state := ''qr'',
             history := history (REGEX_1_after_reset ''c'') @
               [\<lparr> h_step = 0, h_state = ''qr'',
                  h_tape = [''_'', ''_'', ''_'', ''_'', ''_'', ''c'', ''_'', ''_'', ''_'', ''_'', ''_''],
                  h_head = 5, h_symbol = ''c'' \<rparr>]\<rparr>)"
  unfolding REGEX_1_after_reset_c
  by (simp add: eval_defs REGEX_1_TRANSITIONS_def)

lemma no_reject_after_reset_empty:
  "no_reject_after_reset '''' =
     \<lparr> states = {''q0'', ''qa''}, alphabet = {''a''},
       tape_alphabet = {''a'', ''_''}, transitions = Map.empty,
       initial_state = ''q0'', accept_states = {''qa''}, reject_states = [],
       blank_symbol = ''_'',
       tape = [''_'', ''_'', ''_'', ''_'', ''_'', ''_'', ''_'', ''_'', ''_'', ''_''],
       head_position = 5, current_state = ''q0'',
       history = [\<lparr> h_step = 0, h_state = ''q0'',
                    h_tape = [''_'', ''_'', ''_'', ''_'', ''_'', ''_'', ''_'', ''_'', ''_'', ''_''],
                    h_head = 5, h_symbol = ''_'' \<rparr>],
       step_count = 0 \<rparr>"
  by (simp add: no_reject_after_reset_def no_reject_machine_def TuringMachine_def reset_eq
      list_of_string_def numeral_eq_Suc)

lemma step_no_reject_empty:
  "step (no_reject_after_reset '''') =
     Inr ((False, ''qr'', [''_'', ''_'', ''_'', ''_'', ''_'', ''_'', ''_'', ''_'', ''_'', ''_''],
           5, RECHAZADA_no_transicion),
          (no_reject_after_reset '''')
            \<lparr>current_state := ''qr'',
             history := history (no_reject_after_reset '''') @
               [\<lparr> h_step = 0, h_state = ''qr'',
                  h_tape = [''_'', ''_'', ''_'', ''_'', ''_'', ''_'', ''_'', ''_'', ''_'', ''_''],
                  h_head = 5, h_symbol = ''_'' \<rparr>]\<rparr>)"
  unfolding no_reject_after_reset_empty
  by (simp add: eval_defs)

lemma ensure_tape_bounds_eq:
  "ensure_tape_bounds m =
     (if head_position m < 0
      then m\<lparr>tape := replicate 5 (blank_symbol m) @ tape m,
             head_position := head_position m + 5\<rparr>
      else m\<lparr>tape := tape m @
               replicate (nat (head_position m + 1 - int (length (tape m)))) (blank_symbol m)\<rparr>)"
  by (simp add: ensure_tape_bounds_def append_blanks_eq)

lemma ensure_tape_bounds_head_in_range:
  assumes "head_near_tape m"
  shows "0 \<le> head_position (ensure_tape_bounds m)
       \<and> head_position (ensure_tape_bounds m) < int (length (tape (ensure_tape_bounds m)))"
  using assms by (auto simp: ensure_tape_bounds_eq head_near_tape_def)

lemma save_configuration_head_near_tape:
  "save_configuration m = Inr m' \<Longrightarrow> head_near_tape m' = head_near_tape m"
  by (auto dest!: save_configuration_Inr simp: head_near_tape_def)

lemma step_head_near_tape:
  assumes "step m = Inr (r, m')" and "head_near_tape m"
  shows "head_near_tape m'"
proof (cases "current_state m \<in> accept_states m \<or> current_state m \<in> set (reject_states m)")
  case True
  then show ?thesis using assms by (auto simp: step_terminal)
next
  case False
  let ?m1 = "ensure_tape_bounds m"
  have rng: "0 \<le> head_position ?m1" "head_position ?m1 < int (length (tape ?m1))"
    using ensure_tape_bounds_head_in_range [OF assms(2)] by simp_all
  have g: "py_get (tape ?m1) (head_position ?m1) = Inr (tape ?m1 ! nat (head_position ?m1))"
    using rng by (rule py_get_in_range)
  have s: "py_set (tape ?m1) (head_position ?m1) w
             = Inr ((tape ?m1)[nat (head_position ?m1) := w])" for w
    using rng by (rule py_set_in_range)
  have n1: "head_near_tape ?m1"
    using rng by (simp add: head_near_tape_def)
  show ?thesis
  proof (cases "transitions ?m1 (current_state ?m1, tape ?m1 ! nat (head_position ?m1))")
    case None
    then obtain m2 where
      "save_configuration (?m1\<lparr>current_state := reject_choice ?m1\<rparr>) = Inr m2" "m' = m2"
      using assms(1) False
      by (simp add: step_def Let_def g split: sum.splits)
    then show ?thesis
      using n1 save_configuration_head_near_tape [of "?m1\<lparr>current_state := reject_choice ?m1\<rparr>" m2]
      by (simp add: head_near_tape_def)
  next
    case (Some tr)
    obtain q w d where tr: "tr = (q, w, d)" by (cases tr) auto
    let ?m2 = "?m1\<lparr>tape := (tape ?m1)[nat (head_position ?m1) := w],
                    head_position :=
                      (if d = ''R'' then head_position ?m1 + 1
                       else if d = ''L'' then head_position ?m1 - 1
                       else head_position ?m1),
                    current_state := q,
                    step_count := step_count ?m1 + 1\<rparr>"
    have "\<exists>m3. save_configuration ?m2 = Inr m3 \<and> m' = m3"
      using assms(1) False Some tr
      by (simp add: step_def Let_def g s split: sum.splits if_splits)
    then obtain m3 where m3: "save_configuration ?m2 = Inr m3" "m' = m3" by blast
    have "head_near_tape ?m2"
      using rng by (simp add: head_near_tape_def)
    then show ?thesis
      using save_configuration_head_near_tape [OF m3(1)] m3(2) by simp
  qed
qed

lemma run_loop_head_near_tape:
  "run_loop n sbs m rs = Inr (rs', m') \<Longrightarrow> head_near_tape m \<Longrightarrow> head_near_tape m'"
proof (induction n arbitrary: m rs)
  case 0
  then show ?case by simp
next
  case (Suc n)
  from Suc.prems(1) obtain r m1 where st: "step m = Inr (r, m1)"
    by (auto split: sum.splits)
  have n1: "head_near_tape m1"
    using st Suc.prems(2) by (rule step_head_near_tape)
  show ?case
  proof (cases "\<not> fst r \<or> sbs")
    case True
    then have "m' = m1" using Suc.prems(1) st by (auto split: if_splits)
    then show ?thesis using n1 by simp
  next
    case False
    then have "run_loop n sbs m1 (rs @ [r]) = Inr (rs', m')"
      using Suc.prems(1) st by simp
    then show ?thesis using n1 by (rule Suc.IH)
  qed
qed

lemma reset_head_near_tape: "reset m s = Inr m' \<Longrightarrow> head_near_tape m'"
  by (auto simp: reset_eq head_near_tape_def)

lemma run_head_near_tape:
  assumes "run m s sbs k = Inr (rs, m')"
  shows "head_near_tape m'"
proof -
  from assms obtain m0 where r0: "reset m s = Inr m0"
    by (auto simp: run_def split: sum.splits)
  from assms r0 obtain rs1 m1 where l: "run_loop (nat k) sbs m0 [] = Inr (rs1, m1)"
    by (auto simp: run_def split: sum.splits)
  have n1: "head_near_tape m1"
    using l reset_head_near_tape [OF r0] by (rule run_loop_head_near_tape)
  have "m' = m1 \<or> m' = m1\<lparr>current_state := reject_choice m1\<rparr>"
    using assms r0 l by (auto simp: run_def Let_def split: if_splits)
  then show ?thesis using n1 by (auto simp: head_near_tape_def)
qed

lemma get_status_head_near_tape:
  "get_status m = (st, m') \<Longrightarrow> head_near_tape m \<Longrightarrow> head_near_tape m'"
  using ensure_tape_bounds_head_in_range [of m]
  by (auto simp: get_status_def Let_def head_near_tape_def)

lemma reachable_head_near_tape: "reachable m \<Longrightarrow> head_near_tape m"
proof (induction rule: reachable.induct)
  case (constructed sts alph talph delta q0 acc rej blank m)
  then show ?case
    by (auto simp: TuringMachine_def head_near_tape_def split: if_splits)
next
  case (after_reset m s m')
  then show ?case by (simp add: reset_head_near_tape)
next
  case (after_step m r m')
  then show ?case using step_head_near_tape by blast
next
  case (after_run m s step_by_step max_steps rs m')
  then show ?case using run_head_near_tape by blast
next
  case (after_get_status m st m')
  then show ?case using get_status_head_near_tape by blast
next
  case (after_invalid_direction m d s q w t)
  have "length t = length (tape (ensure_tape_bounds m))"
    using after_invalid_direction(5) by (rule py_set_length)
  then show ?case
    using ensure_tape_bounds_head_in_range [OF after_invalid_direction(6)]
    by (simp add: head_near_tape_def)
qed

lemma save_configuration_ok:
  assumes "head_near_tape m" and "tape m \<noteq> []"
  shows "\<exists>m'. save_configuration m = Inr m'"
proof (cases "head_position m < int (length (tape m))")
  case True
  have "1 \<le> int (length (tape m))" using assms(2) by (cases "tape m") simp_all
  then have "- int (length (tape m)) \<le> head_position m"
    using assms(1) unfolding head_near_tape_def by linarith
  then have "\<exists>k. py_index (tape m) (head_position m) = Inr k"
    using True by (simp add: py_index_def Let_def)
  then have "\<exists>x. py_get (tape m) (head_position m) = Inr x"
    by (auto simp: py_get_def)
  then show ?thesis
    using True by (auto simp: save_configuration_def Let_def)
next
  case False
  then show ?thesis by (simp add: save_configuration_def Let_def)
qed

lemma step_no_IndexError:
  assumes "head_near_tape m"
  shows "step m \<noteq> Inl IndexError"
proof (cases "current_state m \<in> accept_states m \<or> current_state m \<in> set (reject_states m)")
  case True
  then show ?thesis by (simp add: step_terminal)
next
  case False
  let ?m1 = "ensure_tape_bounds m"
  have rng: "0 \<le> head_position ?m1" "head_position ?m1 < int (length (tape ?m1))"
    using ensure_tape_bounds_head_in_range [OF assms] by simp_all
  have ne: "tape ?m1 \<noteq> []" using rng by auto
  have g: "py_get (tape ?m1) (head_position ?m1) = Inr (tape ?m1 ! nat (head_position ?m1))"
    using rng by (rule py_get_in_range)
  have s: "py_set (tape ?m1) (head_position ?m1) w
             = Inr ((tape ?m1)[nat (head_position ?m1) := w])" for w
    using rng by (rule py_set_in_range)
  show ?thesis
  proof (cases "transitions ?m1 (current_state ?m1, tape ?m1 ! nat (head_position ?m1))")
    case None
    have "\<exists>m'. save_configuration (?m1\<lparr>current_state := reject_choice ?m1\<rparr>) = Inr m'"
      by (rule save_configuration_ok) (use rng ne in \<open>simp_all add: head_near_tape_def\<close>)
    then obtain m' where
      "save_configuration (?m1\<lparr>current_state := reject_choice ?m1\<rparr>) = Inr m'" by blast
    then show ?thesis
      using False None by (simp add: step_def Let_def g)
  next
    case (Some tr)
    obtain q w d where tr: "tr = (q, w, d)" by (cases tr) auto
    let ?m2 = "?m1\<lparr>tape := (tape ?m1)[nat (head_position ?m1) := w],
                    head_position :=
                      (if d = ''R'' then head_position ?m1 + 1
                       else if d = ''L'' then head_position ?m1 - 1
                       else head_position ?m1),
                    current_state := q,
                    step_count := step_count ?m1 + 1\<rparr>"
    have "\<exists>m'. save_configuration ?m2 = Inr m'"
      by (rule save_configuration_ok) (use rng ne in \<open>simp_all add: head_near_tape_def\<close>)
    then obtain m' where "save_configuration ?m2 = Inr m'" by blast
    then show ?thesis
      using False Some tr by (simp add: step_def Let_def g s)
  qed
qed

lemma reachable_step_no_IndexError: "reachable m \<Longrightarrow> step m \<noteq> Inl IndexError"
  using reachable_head_near_tape step_no_IndexError by blast

lemma REGEX_1_machine_eq:
  "REGEX_1_machine =
     Inr \<lparr> states = {''q0'', ''q1'', ''q2'', ''q3'', ''qa'', ''qr''}, alphabet = {''a'', ''b''},
       tape_alphabet = {''a'', ''b'', ''_''}, transitions = REGEX_1_TRANSITIONS,
       initial_state = ''q0'', accept_states = {''qa''}, reject_states = [''qr''],
       blank_symbol = ''_'', tape = [], head_position = 0, current_state = ''q0'',
       history = [], step_count = 0 \<rparr>"
  by (simp add: REGEX_1_machine_def TuringMachine_def)

lemma step_again_reachable:
  "reachable m \<Longrightarrow> step_again n m = Inr (r, m') \<Longrightarrow> reachable m'"
proof (induction n arbitrary: m)
  case 0
  then show ?case using reachable.after_step [of m r m'] by simp
next
  case (Suc n)
  from Suc.prems(2) obtain r1 m1 where st: "step m = Inr (r1, m1)"
    by (auto split: sum.splits)
  have "reachable m1" using Suc.prems(1) st by (rule reachable.after_step)
  moreover have "step_again n m1 = Inr (r, m')" using Suc.prems(2) st by simp
  ultimately show ?case by (rule Suc.IH)
qed

lemma Inr_projr_pair: "\<not> isl x \<Longrightarrow> x = Inr (fst (projr x), snd (projr x))"
  by (cases x) simp_all

lemma reachable_REGEX_1_machine: "reachable (projr REGEX_1_machine)"
  using reachable.constructed [of "[''q0'', ''q1'', ''q2'', ''q3'', ''qa'', ''qr'']"
      "[''a'', ''b'']" "[''a'', ''b'', ''_'']" REGEX_1_TRANSITIONS "''q0''" "[''qa'']"
      "[''qr'']" "''_''" "projr REGEX_1_machine"]
  by (simp add: REGEX_1_machine_def TuringMachine_def)

lemma reachable_looping_after_reset: "reachable (looping_after_reset s)"
proof -
  have "reachable (projr looping_machine)"
    using reachable.constructed [of "[''q0'', ''qa'', ''qr'']" "[''a'']" "[''a'', ''_'']"
      "map_of [((''q0'', ''_''), (''q0'', ''_'', ''R''))]" "''q0''" "[''qa'']" "[''qr'']" "''_''"
      "projr looping_machine"]
    by (simp add: looping_machine_def TuringMachine_def)
  moreover have "reset (projr looping_machine) s = Inr (looping_after_reset s)"
    by (simp add: looping_after_reset_def reset_eq)
  ultimately show ?thesis by (rule reachable.after_reset)
qed

lemma looping_five_steps_ok: "\<not> isl (step_again 4 (looping_after_reset ''''))"
  by code_simp

lemma reachable_looping_five_steps:
  "reachable (snd (projr (step_again 4 (looping_after_reset ''''))))"
  using reachable_looping_after_reset Inr_projr_pair [OF looping_five_steps_ok]
  by (rule step_again_reachable)

lemma run_looping_50:
  "(case run (projr looping_machine) '''' False 50 of
      Inl e \<Rightarrow> False
    | Inr (results, m) \<Rightarrow>
        length results = 51
      \<and> fst (last results) = False
      \<and> fst (snd (last results)) = ''qr''
      \<and> snd (snd (snd (snd (last results)))) = RECHAZADA_maximo_pasos
      \<and> current_state m = ''qr''
      \<and> current_state m \<in> set (reject_states m)
      \<and> step_count m = 50)"
  by code_simp

section \<open>Construction (C4)\<close>

text \<open>
  C4, as the spec states it, fails: the constructor checks the blank symbol only. Here
  the accept and reject lists overlap and the initial state \<open>q9\<close> is not among the
  states, and the construction still returns a machine.
\<close>

theorem TuringMachine_unchecked_counterexample:
  "set [''qa''] \<inter> set [''qa''] \<noteq> {} \<and> ''q9'' \<notin> set [''q0'', ''qa''] \<and>
   \<not> isl (TuringMachine [''q0'', ''qa''] [''a''] [''a'', ''_''] Map.empty ''q9''
            [''qa''] [''qa''] ''_'')"
  by (simp add: TuringMachine_def)

text \<open>
  C4, amended: constructing the engine raises exactly when the blank symbol is not in
  the tape alphabet, and the error is then the \<open>ValueError\<close> naming that symbol;
  whether the accept and reject sets overlap and whether the initial state is among the
  states has no influence on the outcome.
\<close>

theorem TuringMachine_raises_iff_blank_missing:
  "isl (TuringMachine sts alph talph delta q0 acc rej blank) = (blank \<notin> set talph) \<and>
   (TuringMachine sts alph talph delta q0 acc rej blank = Inl (ValueError_blank_symbol blank))
     = (blank \<notin> set talph)"
  by (simp add: TuringMachine_def)

section \<open>Reset (C6)\<close>

text \<open>
  C6: for every input string \<open>s\<close>, \<open>reset\<close> returns a machine whose tape is \<open>s\<close> between
  two margins of 5 blank symbols, whose head is at index 5, whose state is the initial
  state, whose step count is 0 and whose history is the single entry of that
  configuration (the symbol under the head being the first character of \<open>s\<close>, or the
  blank symbol when \<open>s\<close> is empty). \<open>get_status\<close> called right after leaves that machine
  as it is and reports step 0, the initial state, and a tape whose cells after the left
  margin spell \<open>s\<close>.
\<close>

theorem reset_initial_configuration:
  "\<exists>m'. reset m s = Inr m'
     \<and> tape m' = replicate 5 (blank_symbol m) @ list_of_string s @ replicate 5 (blank_symbol m)
     \<and> head_position m' = 5
     \<and> current_state m' = initial_state m
     \<and> step_count m' = 0
     \<and> history m' = [\<lparr> h_step = 0, h_state = initial_state m, h_tape = tape m', h_head = 5,
                        h_symbol = (case s of [] \<Rightarrow> blank_symbol m | c # _ \<Rightarrow> [c]) \<rparr>]
     \<and> get_status m' =
         (\<lparr> s_state = initial_state m, s_tape = tape m', s_head = 5, s_step = 0,
            is_accepting = (initial_state m \<in> accept_states m),
            is_rejecting = (initial_state m \<in> set (reject_states m)),
            is_running = (initial_state m \<notin> accept_states m \<and>
                          initial_state m \<notin> set (reject_states m)) \<rparr>, m')
     \<and> take (length s) (drop 5 (s_tape (fst (get_status m')))) = list_of_string s
     \<and> concat (take (length s) (drop 5 (s_tape (fst (get_status m'))))) = s"
proof -
  let ?m' = "m\<lparr>tape := replicate 5 (blank_symbol m) @ list_of_string s @ replicate 5 (blank_symbol m),
            head_position := 5,
            current_state := initial_state m,
            history := [\<lparr> h_step = 0, h_state = initial_state m,
                          h_tape = replicate 5 (blank_symbol m) @ list_of_string s
                                   @ replicate 5 (blank_symbol m),
                          h_head = 5,
                          h_symbol = (case s of [] \<Rightarrow> blank_symbol m | c # _ \<Rightarrow> [c]) \<rparr>],
            step_count := 0\<rparr>"
  have e: "ensure_tape_bounds ?m' = ?m'"
    by (rule ensure_tape_bounds_in_range) (simp_all add: list_of_string_def)
  have cc: "concat (list_of_string s) = s"
    by (induction s) (simp_all add: list_of_string_def)
  show ?thesis
    apply (rule exI [of _ ?m'])
    apply (simp only: reset_eq get_status_def e Let_def)
    apply (simp add: length_list_of_string cc)
    done
qed

section \<open>Calling step after a halt (C1)\<close>

text \<open>
  C1, as the spec states it, fails in two ways. On the engine for \<open>(a|b)*abb\<close> after
  \<open>reset("c")\<close> the first \<open>step\<close> finds no transition and halts with the message for a
  missing transition, and the second \<open>step\<close> returns another result (the plain reject
  message). On an engine without reject states after \<open>reset("")\<close> the first \<open>step\<close>
  halts in the state \<open>qr\<close>, which is not a reject state of the machine, so the second
  \<open>step\<close> runs again and appends a third entry to the history.
\<close>

theorem step_after_halt_counterexample:
  "\<not> isl (step (REGEX_1_after_reset ''c''))
   \<and> \<not> fst (fst (projr (step (REGEX_1_after_reset ''c''))))
   \<and> fst (projr (step (snd (projr (step (REGEX_1_after_reset ''c''))))))
       \<noteq> fst (projr (step (REGEX_1_after_reset ''c'')))
   \<and> \<not> isl (step (no_reject_after_reset ''''))
   \<and> \<not> fst (fst (projr (step (no_reject_after_reset ''''))))
   \<and> length (history (snd (projr (step (no_reject_after_reset ''''))))) = 2
   \<and> length (history (snd (projr (step (snd (projr (step (no_reject_after_reset ''''))))))))
       = 3"
proof -
  have a: "fst (projr (step (snd (projr (step (REGEX_1_after_reset ''c''))))))
       \<noteq> fst (projr (step (REGEX_1_after_reset ''c'')))"
    unfolding step_REGEX_1_c by (simp add: REGEX_1_after_reset_c step_def)
  have b: "length (history (snd (projr (step (snd (projr (step (no_reject_after_reset ''''))))))))
       = 3"
    unfolding step_no_reject_empty by (simp add: no_reject_after_reset_empty eval_defs)
  have c: "length (history (snd (projr (step (no_reject_after_reset ''''))))) = 2"
    unfolding step_no_reject_empty by (simp add: no_reject_after_reset_empty)
  show ?thesis
    using a b c by (simp add: step_REGEX_1_c step_no_reject_empty)
qed

text \<open>
  C1, amended: let \<open>step\<close> report \<open>continue = false\<close>, on a machine that has a reject
  state or with a message other than the one for a missing transition. Then every later
  call of \<open>step\<close> returns \<open>continue = false\<close> with the same state, tape and head position
  and the accept or reject message of that state, and returns the machine as it was:
  tape, head position, current state, step count and history do not change. When the
  first halting message was not the one for a missing transition, every later result is
  that first result itself.
\<close>

theorem step_after_halt_idempotent:
  assumes "step m = Inr (r, m')" and "\<not> fst r"
    and "reject_states m \<noteq> [] \<or> snd (snd (snd (snd r))) \<noteq> RECHAZADA_no_transicion"
  shows "(\<forall>n. step_again n m' =
            Inr ((False, current_state m', tape m', head_position m',
                  if current_state m' \<in> accept_states m' then CADENA_ACEPTADA
                  else CADENA_RECHAZADA), m'))
       \<and> fst (snd r) = current_state m'
       \<and> fst (snd (snd r)) = tape m'
       \<and> fst (snd (snd (snd r))) = head_position m'
       \<and> (snd (snd (snd (snd r))) \<noteq> RECHAZADA_no_transicion \<longrightarrow>
            (\<forall>n. step_again n m' = Inr (r, m')))"
proof -
  have halted: "current_state m' \<in> accept_states m' \<or> current_state m' \<in> set (reject_states m')"
    using assms step_halt_state [of m r m'] step_halt_message [of m r m'] by blast
  have again: "step_again n m' =
            Inr ((False, current_state m', tape m', head_position m',
                  if current_state m' \<in> accept_states m' then CADENA_ACEPTADA
                  else CADENA_RECHAZADA), m')" for n
    using halted by (rule step_again_terminal)
  have fields: "fst (snd r) = current_state m' \<and> fst (snd (snd r)) = tape m'
       \<and> fst (snd (snd (snd r))) = head_position m'"
    using step_result_fields [OF assms(1)] by simp
  have same: "step_again n m' = Inr (r, m')"
    if "snd (snd (snd (snd r))) \<noteq> RECHAZADA_no_transicion" for n
  proof -
    have "r = (False, current_state m', tape m', head_position m',
                  if current_state m' \<in> accept_states m' then CADENA_ACEPTADA
                  else CADENA_RECHAZADA)"
      using step_halt_message [OF assms(1,2) that] fields assms(2)
      by (cases r) auto
    then show ?thesis using again [of n] by simp
  qed
  show ?thesis using again fields same by blast
qed

theorem step_after_halt_idempotent_witness:
  "\<not> isl (step (REGEX_1_after_reset ''c''))
   \<and> \<not> fst (fst (projr (step (REGEX_1_after_reset ''c''))))
   \<and> reject_states (REGEX_1_after_reset ''c'') \<noteq> []
   \<and> step_again 2 (snd (projr (step (REGEX_1_after_reset ''c''))))
       = Inr ((False, ''qr'',
               [''_'', ''_'', ''_'', ''_'', ''_'', ''c'', ''_'', ''_'', ''_'', ''_'', ''_''],
               5, CADENA_RECHAZADA),
              snd (projr (step (REGEX_1_after_reset ''c''))))"
proof -
  let ?A = "REGEX_1_after_reset ''c''"
  have r: "reject_states ?A \<noteq> []"
    by (simp add: REGEX_1_after_reset_c)
  have s: "step ?A = Inr (fst (projr (step ?A)), snd (projr (step ?A)))"
    by (simp add: step_REGEX_1_c)
  have nf: "\<not> fst (fst (projr (step ?A)))"
    by (simp add: step_REGEX_1_c)
  note t = step_after_halt_idempotent [OF s nf disjI1 [OF r], THEN conjunct1, THEN spec, of 2]
  show ?thesis
    using t r unfolding step_REGEX_1_c by (simp add: REGEX_1_after_reset_c)
qed

section \<open>A missing transition (C3)\<close>

text \<open>
  C3, as the spec states it, fails when there is no reject state: on the engine without
  reject states after \<open>reset("")\<close> the state \<open>q0\<close> is running, the symbol under the head
  is the blank, no transition is defined for the pair, and \<open>step\<close> raises nothing: it
  returns \<open>continue = false\<close> and leaves the machine in the state \<open>qr\<close>.
\<close>

theorem step_no_transition_counterexample:
  "reject_states (no_reject_after_reset '''') = []
   \<and> current_state (no_reject_after_reset '''') \<notin> accept_states (no_reject_after_reset '''')
   \<and> py_get (tape (no_reject_after_reset '''')) (head_position (no_reject_after_reset ''''))
        = Inr ''_''
   \<and> transitions (no_reject_after_reset '''')
        (current_state (no_reject_after_reset ''''), ''_'') = None
   \<and> \<not> isl (step (no_reject_after_reset ''''))
   \<and> \<not> fst (fst (projr (step (no_reject_after_reset ''''))))
   \<and> current_state (snd (projr (step (no_reject_after_reset '''')))) = ''qr''"
  unfolding step_no_reject_empty
  by (simp add: no_reject_after_reset_empty py_get_def py_index_def)

text \<open>
  C3, amended: when \<open>step\<close> is called in a state that is neither accepting nor rejecting
  and the pair of the current state and the symbol read under the head (after the tape
  bounds are ensured) has no entry in the transition table, \<open>step\<close> sets the current
  state to the first element of \<open>list(reject_states)\<close>, a member of \<open>reject_states\<close>, or
  to the literal \<open>qr\<close> when \<open>reject_states\<close> is empty, appends that configuration to the
  history, leaves the step count as it is, and returns \<open>continue = false\<close> with the
  message for a missing transition. It raises no error in either case.
\<close>

theorem step_no_transition:
  assumes "current_state m \<notin> accept_states m"
    and "current_state m \<notin> set (reject_states m)"
    and "py_get (tape (ensure_tape_bounds m)) (head_position (ensure_tape_bounds m)) = Inr s"
    and "transitions m (current_state m, s) = None"
  shows "step m =
           Inr ((False, reject_choice m, tape (ensure_tape_bounds m),
                 head_position (ensure_tape_bounds m), RECHAZADA_no_transicion),
                (ensure_tape_bounds m)
                  \<lparr>current_state := reject_choice m,
                   history := history m @
                     [\<lparr> h_step = step_count m, h_state = reject_choice m,
                        h_tape = tape (ensure_tape_bounds m),
                        h_head = head_position (ensure_tape_bounds m), h_symbol = s \<rparr>]\<rparr>)
       \<and> (reject_states m \<noteq> [] \<longrightarrow>
            reject_choice m = hd (reject_states m) \<and> reject_choice m \<in> set (reject_states m))
       \<and> (reject_states m = [] \<longrightarrow> reject_choice m = ''qr'')"
proof -
  let ?m1 = "ensure_tape_bounds m"
  have rc: "reject_choice ?m1 = reject_choice m"
    by (simp add: reject_choice_def ensure_tape_bounds_frame)
  have "py_get (tape (?m1\<lparr>current_state := reject_choice m\<rparr>))
          (head_position (?m1\<lparr>current_state := reject_choice m\<rparr>)) = Inr s"
    using assms(3) by simp
  then have sv: "save_configuration (?m1\<lparr>current_state := reject_choice m\<rparr>) =
     Inr (?m1\<lparr>current_state := reject_choice m,
              history := history m @
                     [\<lparr> h_step = step_count m, h_state = reject_choice m,
                        h_tape = tape ?m1, h_head = head_position ?m1, h_symbol = s \<rparr>]\<rparr>)"
    by (simp add: save_configuration_read ensure_tape_bounds_frame)
  have st: "step m =
           Inr ((False, reject_choice m, tape ?m1, head_position ?m1, RECHAZADA_no_transicion),
                ?m1\<lparr>current_state := reject_choice m,
                   history := history m @
                     [\<lparr> h_step = step_count m, h_state = reject_choice m,
                        h_tape = tape ?m1, h_head = head_position ?m1, h_symbol = s \<rparr>]\<rparr>)"
    using assms by (simp add: step_def Let_def ensure_tape_bounds_frame rc sv)
  have ch: "reject_states m \<noteq> [] \<longrightarrow>
            reject_choice m = hd (reject_states m) \<and> reject_choice m \<in> set (reject_states m)"
    by (cases "reject_states m") (simp_all add: reject_choice_def)
  have em: "reject_states m = [] \<longrightarrow> reject_choice m = ''qr''"
    by (simp add: reject_choice_def)
  show ?thesis using st ch em by blast
qed

theorem step_no_transition_witness:
  "current_state (REGEX_1_after_reset ''c'') \<notin> accept_states (REGEX_1_after_reset ''c'')
   \<and> current_state (REGEX_1_after_reset ''c'') \<notin> set (reject_states (REGEX_1_after_reset ''c''))
   \<and> py_get (tape (ensure_tape_bounds (REGEX_1_after_reset ''c'')))
         (head_position (ensure_tape_bounds (REGEX_1_after_reset ''c''))) = Inr ''c''
   \<and> transitions (REGEX_1_after_reset ''c'') (current_state (REGEX_1_after_reset ''c''), ''c'')
       = None
   \<and> fst (projr (step (REGEX_1_after_reset ''c''))) =
        (False, ''qr'', [''_'', ''_'', ''_'', ''_'', ''_'', ''c'', ''_'', ''_'', ''_'', ''_'', ''_''],
         5, RECHAZADA_no_transicion)
   \<and> current_state (snd (projr (step (REGEX_1_after_reset ''c''))))
        \<in> set (reject_states (REGEX_1_after_reset ''c''))"
proof -
  let ?A = "REGEX_1_after_reset ''c''"
  have e: "ensure_tape_bounds ?A = ?A"
    by (rule ensure_tape_bounds_in_range) (simp_all add: REGEX_1_after_reset_c)
  have a1: "current_state ?A \<notin> accept_states ?A"
    by (simp add: REGEX_1_after_reset_c)
  have a2: "current_state ?A \<notin> set (reject_states ?A)"
    by (simp add: REGEX_1_after_reset_c)
  have a3: "py_get (tape (ensure_tape_bounds ?A)) (head_position (ensure_tape_bounds ?A))
              = Inr ''c''"
    unfolding e by (simp add: REGEX_1_after_reset_c py_get_def py_index_def)
  have a4: "transitions ?A (current_state ?A, ''c'') = None"
    by (simp add: REGEX_1_after_reset_c REGEX_1_TRANSITIONS_def)
  note t = step_no_transition [OF a1 a2 a3 a4, THEN conjunct1]
  have rc: "reject_choice ?A = ''qr''"
    by (simp add: reject_choice_def REGEX_1_after_reset_c)
  have f: "fst (projr (step ?A)) =
        (False, ''qr'', [''_'', ''_'', ''_'', ''_'', ''_'', ''c'', ''_'', ''_'', ''_'', ''_'', ''_''],
         5, RECHAZADA_no_transicion)"
    unfolding t e rc by (simp add: REGEX_1_after_reset_c)
  have g: "current_state (snd (projr (step ?A))) \<in> set (reject_states ?A)"
    unfolding t e rc by (simp add: REGEX_1_after_reset_c)
  show ?thesis using a1 a2 a3 a4 f g by blast
qed

section \<open>Tape extension (C7)\<close>

text \<open>
  C7: on every reachable machine, \<open>_ensure_tape_bounds\<close> changes nothing but the tape and
  the head position; the new tape is the old tape with blank symbols put in front of it
  and behind it, the head position moves by the number of cells put in front, so no
  existing cell is altered; nothing is added when the head was within the tape; and
  when the head was out of range, the cell under the head afterwards holds the blank
  symbol.
\<close>

theorem ensure_tape_bounds_keeps_content:
  assumes "reachable m"
  shows "\<exists>pre post.
           ensure_tape_bounds m =
             m\<lparr>tape := pre @ tape m @ post,
               head_position := head_position m + int (length pre)\<rparr>
         \<and> pre = replicate (length pre) (blank_symbol m)
         \<and> post = replicate (length post) (blank_symbol m)
         \<and> (0 \<le> head_position m \<and> head_position m < int (length (tape m))
              \<longrightarrow> pre = [] \<and> post = [])
         \<and> (head_position m < 0 \<or> int (length (tape m)) \<le> head_position m
              \<longrightarrow> py_get (tape (ensure_tape_bounds m)) (head_position (ensure_tape_bounds m))
                    = Inr (blank_symbol m))"
proof -
  have near: "- 1 \<le> head_position m" "head_position m \<le> int (length (tape m))"
    using reachable_head_near_tape [OF assms] by (simp_all add: head_near_tape_def)
  show ?thesis
  proof (cases "head_position m < 0")
    case True
    then have h: "head_position m = - 1" using near by simp
    have e: "ensure_tape_bounds m =
               m\<lparr>tape := replicate 5 (blank_symbol m) @ tape m @ [],
                 head_position := head_position m + int (length (replicate 5 (blank_symbol m)))\<rparr>"
      using True by (simp add: ensure_tape_bounds_eq)
    have g: "py_get (tape (ensure_tape_bounds m)) (head_position (ensure_tape_bounds m))
               = Inr (blank_symbol m)"
      unfolding e using h by (simp add: py_get_def py_index_def nth_append)
    show ?thesis
      apply (rule exI [of _ "replicate 5 (blank_symbol m)"])
      apply (rule exI [of _ "[]"])
      using e g True by simp
  next
    case False
    let ?k = "nat (head_position m + 1 - int (length (tape m)))"
    have e: "ensure_tape_bounds m =
               m\<lparr>tape := [] @ tape m @ replicate ?k (blank_symbol m),
                 head_position := head_position m + int (length ([] :: symbol list))\<rparr>"
      using False by (simp add: ensure_tape_bounds_eq)
    have g: "py_get (tape (ensure_tape_bounds m)) (head_position (ensure_tape_bounds m))
               = Inr (blank_symbol m)" if "int (length (tape m)) \<le> head_position m"
    proof -
      have "head_position m = int (length (tape m))" using that near by simp
      then show ?thesis unfolding e by (simp add: py_get_def py_index_def nth_append)
    qed
    show ?thesis
      apply (rule exI [of _ "[]"])
      apply (rule exI [of _ "replicate ?k (blank_symbol m)"])
      using e g False by auto
  qed
qed

theorem ensure_tape_bounds_keeps_content_witness:
  "reachable (projr REGEX_1_machine)
   \<and> int (length (tape (projr REGEX_1_machine))) \<le> head_position (projr REGEX_1_machine)
   \<and> py_get (tape (ensure_tape_bounds (projr REGEX_1_machine)))
        (head_position (ensure_tape_bounds (projr REGEX_1_machine))) = Inr ''_''"
proof -
  have r: "reachable (projr REGEX_1_machine)"
    by (rule reachable_REGEX_1_machine)
  have o: "int (length (tape (projr REGEX_1_machine))) \<le> head_position (projr REGEX_1_machine)"
    by (simp add: REGEX_1_machine_eq)
  from ensure_tape_bounds_keeps_content [OF r] o
  have "py_get (tape (ensure_tape_bounds (projr REGEX_1_machine)))
        (head_position (ensure_tape_bounds (projr REGEX_1_machine)))
          = Inr (blank_symbol (projr REGEX_1_machine))"
    by blast
  then show ?thesis using r o by (simp add: REGEX_1_machine_eq)
qed

section \<open>The status accessor (C2)\<close>

text \<open>
  C2, as the spec states it, fails: \<open>get_status\<close> ensures the tape bounds first. On the
  engine for \<open>(a|b)*abb\<close> as constructed the tape is empty and \<open>get_status\<close> leaves a
  tape of one blank. On the looping engine after \<open>reset("")\<close> and five calls of \<open>step\<close>
  the head stands behind the last of the 10 cells and \<open>get_status\<close> leaves a tape of 11
  cells.
\<close>

theorem get_status_mutates_counterexample:
  "reachable (projr REGEX_1_machine)
   \<and> tape (projr REGEX_1_machine) = []
   \<and> tape (snd (get_status (projr REGEX_1_machine))) = [''_'']
   \<and> reachable (snd (projr (step_again 4 (looping_after_reset ''''))))
   \<and> length (tape (snd (projr (step_again 4 (looping_after_reset ''''))))) = 10
   \<and> length (tape (snd (get_status (snd (projr (step_again 4 (looping_after_reset '''')))))))
       = 11"
proof -
  have a: "tape (projr REGEX_1_machine) = []"
    by (simp add: REGEX_1_machine_eq)
  have b: "tape (snd (get_status (projr REGEX_1_machine))) = [''_'']"
    by (simp add: REGEX_1_machine_eq get_status_def ensure_tape_bounds_eq)
  have c: "length (tape (snd (projr (step_again 4 (looping_after_reset ''''))))) = 10"
    by code_simp
  have d: "length (tape (snd (get_status (snd (projr (step_again 4 (looping_after_reset '''')))))))
       = 11"
    by code_simp
  show ?thesis
    using reachable_REGEX_1_machine a b reachable_looping_five_steps c d by blast
qed

text \<open>
  C2, amended: \<open>get_status\<close> ensures the tape bounds and then returns the current state,
  a copy of the tape, the head position, the step count and the three flags. It never
  changes the current state, the step count, the history or the machine description.
  It changes the tape and the head position only when the head is outside the tape: a
  negative head gets five blanks put in front of the tape and is moved by five, a head
  at or behind the end gets blanks appended until it is within the tape. When the head
  is within the tape the machine is left exactly as it was.
\<close>

theorem get_status_frame:
  "get_status m =
     (\<lparr> s_state = current_state m,
        s_tape = tape (ensure_tape_bounds m),
        s_head = head_position (ensure_tape_bounds m),
        s_step = step_count m,
        is_accepting = (current_state m \<in> accept_states m),
        is_rejecting = (current_state m \<in> set (reject_states m)),
        is_running = (current_state m \<notin> accept_states m \<and>
                      current_state m \<notin> set (reject_states m)) \<rparr>,
      ensure_tape_bounds m)
   \<and> snd (get_status m) =
       m\<lparr>tape := (if head_position m < 0 then replicate 5 (blank_symbol m) @ tape m
                  else tape m @ replicate (nat (head_position m + 1 - int (length (tape m))))
                                  (blank_symbol m)),
         head_position := (if head_position m < 0 then head_position m + 5
                           else head_position m)\<rparr>
   \<and> (0 \<le> head_position m \<and> head_position m < int (length (tape m))
        \<longrightarrow> snd (get_status m) = m)"
proof -
  have a: "get_status m =
     (\<lparr> s_state = current_state m,
        s_tape = tape (ensure_tape_bounds m),
        s_head = head_position (ensure_tape_bounds m),
        s_step = step_count m,
        is_accepting = (current_state m \<in> accept_states m),
        is_rejecting = (current_state m \<in> set (reject_states m)),
        is_running = (current_state m \<notin> accept_states m \<and>
                      current_state m \<notin> set (reject_states m)) \<rparr>,
      ensure_tape_bounds m)"
    by (simp add: get_status_def Let_def ensure_tape_bounds_frame)
  have b: "ensure_tape_bounds m =
       m\<lparr>tape := (if head_position m < 0 then replicate 5 (blank_symbol m) @ tape m
                  else tape m @ replicate (nat (head_position m + 1 - int (length (tape m))))
                                  (blank_symbol m)),
         head_position := (if head_position m < 0 then head_position m + 5
                           else head_position m)\<rparr>"
    by (simp add: ensure_tape_bounds_eq)
  have c: "0 \<le> head_position m \<and> head_position m < int (length (tape m))
        \<longrightarrow> ensure_tape_bounds m = m"
    by (simp add: ensure_tape_bounds_in_range)
  have s: "snd (get_status m) = ensure_tape_bounds m"
    by (simp add: a)
  show ?thesis
    unfolding s using a b c by blast
qed

theorem get_status_frame_witness:
  "0 \<le> head_position (REGEX_1_after_reset ''c'')
   \<and> head_position (REGEX_1_after_reset ''c'') < int (length (tape (REGEX_1_after_reset ''c'')))
   \<and> snd (get_status (REGEX_1_after_reset ''c'')) = REGEX_1_after_reset ''c''"
proof -
  have a: "0 \<le> head_position (REGEX_1_after_reset ''c'')"
    by (simp add: REGEX_1_after_reset_c)
  have b: "head_position (REGEX_1_after_reset ''c'')
             < int (length (tape (REGEX_1_after_reset ''c'')))"
    by (simp add: REGEX_1_after_reset_c)
  show ?thesis
    using get_status_frame [of "REGEX_1_after_reset ''c''"] a b by blast
qed

section \<open>The first step of a machine that was never reset (C10)\<close>

text \<open>
  C10, as stated, fails on two machines. When the initial state is an accept state, \<open>step\<close>
  on the machine as constructed returns the terminal result at once and the tape stays
  empty: nothing is extended and nothing is read. When the transition for the initial
  state and the blank symbol has the direction \<open>X\<close>, \<open>step\<close> raises the \<open>ValueError\<close> for
  an invalid direction.
\<close>

theorem step_on_fresh_machine_counterexample:
  "\<not> isl accepting_start_machine
   \<and> tape (projr accepting_start_machine) = []
   \<and> step (projr accepting_start_machine)
       = Inr ((False, ''qa'', [], 0, CADENA_ACEPTADA), projr accepting_start_machine)
   \<and> \<not> isl bad_direction_machine
   \<and> step (projr bad_direction_machine) = Inl (ValueError_direction ''X'')"
  by (simp add: accepting_start_machine_def bad_direction_machine_def TuringMachine_def eval_defs)

text \<open>
  C10, amended: on a machine as constructed whose initial state is neither an accept nor
  a reject state, \<open>step\<close> extends the empty tape by exactly one blank symbol, reads the
  blank at head position 0, and then behaves exactly as \<open>step\<close> on the same machine with
  the one-blank tape. It never raises for the empty tape: it returns a result unless the
  transition for the initial state and the blank symbol carries a direction other than
  R, L and S, in which case it raises the \<open>ValueError\<close> for that direction.
\<close>

theorem step_on_fresh_machine:
  assumes "TuringMachine sts alph talph delta q0 acc rej blank = Inr m"
    and "q0 \<notin> set acc" and "q0 \<notin> set rej"
  shows "ensure_tape_bounds m = m\<lparr>tape := [blank]\<rparr>
       \<and> py_get (tape (ensure_tape_bounds m)) (head_position (ensure_tape_bounds m)) = Inr blank
       \<and> step m = step (m\<lparr>tape := [blank]\<rparr>)
       \<and> (case delta (q0, blank) of
             None \<Rightarrow> \<not> isl (step m)
           | Some (q, w, d) \<Rightarrow>
               if d = ''R'' \<or> d = ''L'' \<or> d = ''S'' then \<not> isl (step m)
               else step m = Inl (ValueError_direction d))"
proof -
  have m: "m = \<lparr> states = set sts, alphabet = set alph, tape_alphabet = set talph,
                 transitions = delta, initial_state = q0, accept_states = set acc,
                 reject_states = remdups rej, blank_symbol = blank,
                 tape = [], head_position = 0, current_state = q0,
                 history = [], step_count = 0 \<rparr>"
    using assms(1) by (simp add: TuringMachine_def split: if_splits)
  have e: "ensure_tape_bounds m = m\<lparr>tape := [blank]\<rparr>"
    by (simp add: m ensure_tape_bounds_eq)
  have e': "ensure_tape_bounds (m\<lparr>tape := [blank]\<rparr>) = m\<lparr>tape := [blank]\<rparr>"
    by (rule ensure_tape_bounds_in_range) (simp_all add: m)
  have g: "py_get (tape (ensure_tape_bounds m)) (head_position (ensure_tape_bounds m)) = Inr blank"
    unfolding e by (simp add: m py_get_def py_index_def)
  have run: "current_state m \<notin> accept_states m" "current_state m \<notin> set (reject_states m)"
    using assms(2,3) by (simp_all add: m)
  have eq: "step m = step (m\<lparr>tape := [blank]\<rparr>)"
    using run by (simp add: step_def e e' Let_def)
  have c: "(case delta (q0, blank) of
             None \<Rightarrow> \<not> isl (step m)
           | Some (q, w, d) \<Rightarrow>
               if d = ''R'' \<or> d = ''L'' \<or> d = ''S'' then \<not> isl (step m)
               else step m = Inl (ValueError_direction d))"
  proof (cases "delta (q0, blank)")
    case None
    then show ?thesis
      using assms(2,3) unfolding m
      by (simp add: eval_defs)
  next
    case (Some tr)
    obtain q w d where tr: "tr = (q, w, d)" by (cases tr) auto
    show ?thesis
      using assms(2,3) Some unfolding m tr
      by (simp add: eval_defs)
  qed
  show ?thesis using e g eq c by blast
qed

theorem step_on_fresh_machine_witness:
  "REGEX_1_machine = Inr (projr REGEX_1_machine)
   \<and> ''q0'' \<notin> set [''qa''] \<and> ''q0'' \<notin> set [''qr'']
   \<and> step (projr REGEX_1_machine) = step ((projr REGEX_1_machine)\<lparr>tape := [''_'']\<rparr>)
   \<and> \<not> isl (step (projr REGEX_1_machine))"
proof -
  have c: "TuringMachine [''q0'', ''q1'', ''q2'', ''q3'', ''qa'', ''qr''] [''a'', ''b'']
       [''a'', ''b'', ''_''] REGEX_1_TRANSITIONS ''q0'' [''qa''] [''qr''] ''_''
        = Inr (projr REGEX_1_machine)"
    by (simp add: REGEX_1_machine_def TuringMachine_def)
  have a: "''q0'' \<notin> set [''qa'']" by simp
  have r: "''q0'' \<notin> set [''qr'']" by simp
  have t: "REGEX_1_TRANSITIONS (''q0'', ''_'') = Some (''qr'', ''_'', ''S'')"
    by (simp add: REGEX_1_TRANSITIONS_def)
  note th = step_on_fresh_machine [OF c a r]
  have "step (projr REGEX_1_machine) = step ((projr REGEX_1_machine)\<lparr>tape := [''_'']\<rparr>)"
    using th by blast
  moreover have "\<not> isl (step (projr REGEX_1_machine))"
    using th [THEN conjunct2, THEN conjunct2, THEN conjunct2] t by simp
  ultimately show ?thesis using a r by (simp add: REGEX_1_machine_eq)
qed

section \<open>The step limit of run (C5)\<close>

text \<open>
  C5 at the input where \<open>run\<close> departs from it: the engine for \<open>(a|b)*abb\<close> accepts \<open>aabb\<close>
  with its fifth step. Run with \<open>max_steps = 5\<close>, the fifth result is the accepting one
  (the machine is no longer running), and still the test \<open>step_count >= max_steps\<close>
  after the loop overrides the state with the reject state and appends the result with
  the step-limit message.
\<close>

theorem run_step_limit_overrides_accept:
  "(case run (projr REGEX_1_machine) ''aabb'' False 5 of
      Inl e \<Rightarrow> False
    | Inr (results, m) \<Rightarrow>
        length results = 6
      \<and> results ! 4 = (False, ''qa'',
          [''_'', ''_'', ''_'', ''_'', ''_'', ''a'', ''a'', ''b'', ''b'',
           ''_'', ''_'', ''_'', ''_'', ''_''], 9, CADENA_ACEPTADA)
      \<and> results ! 5 = (False, ''qr'',
          [''_'', ''_'', ''_'', ''_'', ''_'', ''a'', ''a'', ''b'', ''b'',
           ''_'', ''_'', ''_'', ''_'', ''_''], 9, RECHAZADA_maximo_pasos)
      \<and> current_state m = ''qr''
      \<and> step_count m = 5)"
  by code_simp

section \<open>The sample definition on two inputs (C8)\<close>

text \<open>
  C8: the engine built from \<open>REGEX_1_CONFIG\<close>, run on \<open>aabb\<close> with the default limit of
  1000 steps, ends in the accept state \<open>qa\<close> with the accept message as its last result;
  run on \<open>ab\<close> it ends in the reject state \<open>qr\<close> with the reject message as its last
  result. Driven by \<open>reset\<close> and repeated calls of \<open>step\<close>, as the tests of the repository
  do, the fifth call on \<open>aabb\<close> is the accepting one and the third call on \<open>ab\<close> the
  rejecting one.
\<close>

theorem REGEX_1_accepts_aabb_rejects_ab:
  "(case run (projr REGEX_1_machine) ''aabb'' False 1000 of
      Inl e \<Rightarrow> False
    | Inr (results, m) \<Rightarrow>
        current_state m = ''qa''
      \<and> current_state m \<in> accept_states m
      \<and> last results = (False, ''qa'',
          [''_'', ''_'', ''_'', ''_'', ''_'', ''a'', ''a'', ''b'', ''b'',
           ''_'', ''_'', ''_'', ''_'', ''_''], 9, CADENA_ACEPTADA))
   \<and> (case run (projr REGEX_1_machine) ''ab'' False 1000 of
      Inl e \<Rightarrow> False
    | Inr (results, m) \<Rightarrow>
        current_state m = ''qr''
      \<and> current_state m \<in> set (reject_states m)
      \<and> last results = (False, ''qr'',
          [''_'', ''_'', ''_'', ''_'', ''_'', ''a'', ''b'',
           ''_'', ''_'', ''_'', ''_'', ''_''], 7, CADENA_RECHAZADA))
   \<and> (case step_again 4 (REGEX_1_after_reset ''aabb'') of
      Inl e \<Rightarrow> False
    | Inr (r, m) \<Rightarrow>
        r = (False, ''qa'',
          [''_'', ''_'', ''_'', ''_'', ''_'', ''a'', ''a'', ''b'', ''b'',
           ''_'', ''_'', ''_'', ''_'', ''_''], 9, CADENA_ACEPTADA)
      \<and> current_state m \<in> accept_states m)
   \<and> (case step_again 2 (REGEX_1_after_reset ''ab'') of
      Inl e \<Rightarrow> False
    | Inr (r, m) \<Rightarrow>
        r = (False, ''qr'',
          [''_'', ''_'', ''_'', ''_'', ''_'', ''a'', ''b'',
           ''_'', ''_'', ''_'', ''_'', ''_''], 7, CADENA_RECHAZADA)
      \<and> current_state m \<in> set (reject_states m))"
  by code_simp

section \<open>Validation of the input string (C9)\<close>

text \<open>
  C9: \<open>validate_input_string\<close> returns \<open>(True, "")\<close> exactly when the input string is empty
  or each of its characters is in the alphabet; otherwise it returns \<open>False\<close> with the
  message that lists, sorted and without repetition, exactly the characters of the
  string that are outside the alphabet.
\<close>

theorem validate_input_string_correct:
  "(validate_input_string s A = (True, Sin_mensaje)) = (s = [] \<or> (\<forall>c \<in> set s. c \<in> A))
   \<and> (\<not> (s = [] \<or> (\<forall>c \<in> set s. c \<in> A)) \<longrightarrow>
        (\<exists>xs. validate_input_string s A = (False, Simbolos_invalidos xs)
              \<and> sorted xs \<and> distinct xs \<and> set xs = {c \<in> set s. c \<notin> A}))"
proof -
  have fin: "finite (set s - A)" by simp
  have d: "set s - A = {c \<in> set s. c \<notin> A}" by auto
  have e: "(set s - A = {}) = (\<forall>c \<in> set s. c \<in> A)" by auto
  have a: "(validate_input_string s A = (True, Sin_mensaje)) = (s = [] \<or> (\<forall>c \<in> set s. c \<in> A))"
    using e by (auto simp: validate_input_string_def Let_def)
  have b: "\<exists>xs. validate_input_string s A = (False, Simbolos_invalidos xs)
              \<and> sorted xs \<and> distinct xs \<and> set xs = {c \<in> set s. c \<notin> A}"
    if "\<not> (s = [] \<or> (\<forall>c \<in> set s. c \<in> A))"
  proof -
    have ne: "s \<noteq> []" "set s - A \<noteq> {}" using that e by auto
    have "validate_input_string s A = (False, Simbolos_invalidos (sorted_list_of_set (set s - A)))"
      using ne by (simp add: validate_input_string_def Let_def)
    moreover have "sorted (sorted_list_of_set (set s - A))"
      "distinct (sorted_list_of_set (set s - A))"
      by simp_all
    moreover have "set (sorted_list_of_set (set s - A)) = {c \<in> set s. c \<notin> A}"
      using fin d by simp
    ultimately show ?thesis by blast
  qed
  show ?thesis using a b by blast
qed

theorem validate_input_string_correct_witness:
  "validate_input_string ''abba'' (set ''ab'') = (True, Sin_mensaje)
   \<and> validate_input_string ''ca1'' (set ''ab'') = (False, Simbolos_invalidos ''1c'')"
proof -
  have "validate_input_string ''abba'' (set ''ab'') = (True, Sin_mensaje)"
    using validate_input_string_correct [of "''abba''" "set ''ab''", THEN conjunct1] by simp
  moreover have "validate_input_string ''ca1'' (set ''ab'') = (False, Simbolos_invalidos ''1c'')"
  proof -
    have "\<not> (''ca1'' = [] \<or> (\<forall>c \<in> set ''ca1''. c \<in> set ''ab''))" by simp
    with validate_input_string_correct [of "''ca1''" "set ''ab''", THEN conjunct2]
    obtain xs where xs: "validate_input_string ''ca1'' (set ''ab'') = (False, Simbolos_invalidos xs)"
      "sorted xs" "distinct xs" "set xs = {c \<in> set ''ca1''. c \<notin> set ''ab''}"
      by blast
    have "set xs = set ''1c''" using xs(4) by auto
    moreover have "sorted ''1c''" "distinct ''1c''" by (simp_all add: less_eq_char_def)
    ultimately have "xs = ''1c''"
      using xs(2,3) by (meson sorted_distinct_set_unique)
    then show ?thesis using xs(1) by simp
  qed
  ultimately show ?thesis by blast
qed

end
